theory Spec2Isabelle
  imports Complex_Main "HOL-Library.AList"
begin

section \<open>The in-process rate limiter of \<^verbatim>\<open>server/security.ts\<close>\<close>

text \<open>
  Modelling conventions.
  \<^item> A JavaScript \<^verbatim>\<open>number\<close> is an \<open>int\<close>: \<^verbatim>\<open>Date.now()\<close> yields integer milliseconds, and
    \<open>windowMs\<close>, \<open>max\<close> are integers. On integers below \<open>2^53\<close> the double arithmetic of the
    source (\<open>+\<close>, \<open>-\<close>, \<open>\<le>\<close>, \<^verbatim>\<open>Math.max\<close>, \<^verbatim>\<open>Math.min\<close>, \<^verbatim>\<open>Math.ceil(x / 1000)\<close>) is exact.
  \<^item> A string is a \<open>string\<close>; header values reach the program decoded one byte per
    character, so a character is a code unit below 256.
  \<^item> \<^verbatim>\<open>undefined\<close> is \<open>None\<close>.
  \<^item> The \<^verbatim>\<open>Map<string, Bucket>\<close> is an association list in insertion order with pairwise
    distinct keys: \<^verbatim>\<open>get\<close> is \<open>map_of\<close>, \<^verbatim>\<open>set\<close> is \<open>AList.update\<close> (an existing key keeps
    its place, a new key goes to the end), \<^verbatim>\<open>delete\<close> is \<open>AList.delete\<close>.
  \<^item> \<^verbatim>\<open>Date.now()\<close> is the parameter \<open>now\<close>.
  \<^item> The response object is seen through what the middleware does to it: the
    \<^verbatim>\<open>setHeader\<close> calls in order, then either \<^verbatim>\<open>next()\<close> or \<^verbatim>\<open>res.status(s).json(obj)\<close>.
\<close>

subsection \<open>Data\<close>

datatype header = Single string | Multi "string list"

record Request =
  x_forwarded_for :: "header option"
  ip :: "string option"
  remoteAddress :: "string option"

record RateLimitOptions =
  windowMs :: int
  max_opt :: int
  keyGenerator :: "(Request \<Rightarrow> string) option"
  message :: "string option"

record Bucket =
  count :: int
  resetAt :: int

type_synonym buckets = "(string \<times> Bucket) list"

datatype action = Next | StatusJson int "(string \<times> string) list"

record Outcome =
  setHeader :: "(string \<times> string) list"
  action :: action

subsection \<open>JavaScript primitives used by the module\<close>

text \<open>\<^verbatim>\<open>a || b\<close> on an optional string: \<^verbatim>\<open>undefined\<close> and the empty string are falsy.\<close>

definition or_else :: "string option \<Rightarrow> string \<Rightarrow> string" where
  "or_else a b = (case a of None \<Rightarrow> b | Some s \<Rightarrow> if s \<noteq> [] then s else b)"

text \<open>\<^verbatim>\<open>s.split(sep)\<close> for a one-character separator.\<close>

fun split :: "char \<Rightarrow> string \<Rightarrow> string list" where
  "split sep [] = [[]]"
| "split sep (c # cs) =
     (if c = sep then [] # split sep cs
      else (case split sep cs of [] \<Rightarrow> [[c]] | p # ps \<Rightarrow> (c # p) # ps))"

text \<open>
  \<^verbatim>\<open>s.trim()\<close> removes white space and line terminators at both ends. Among the code
  units below 256 these are TAB, LF, VT, FF, CR, SPACE and NBSP.
\<close>

definition is_space :: "char \<Rightarrow> bool" where
  "is_space c = (c \<in> set [CHR 0x09, CHR 0x0A, CHR 0x0B, CHR 0x0C, CHR 0x0D, CHR 0x20, CHR 0xA0])"

definition trim :: "string \<Rightarrow> string" where
  "trim s = rev (dropWhile is_space (rev (dropWhile is_space s)))"

text \<open>
  \<^verbatim>\<open>String(n)\<close> for an integer: its decimal numeral. \<open>digit\<close> is only applied below 10.
\<close>

definition digit :: "nat \<Rightarrow> char" where
  "digit d = ''0123456789'' ! d"

fun digits :: "nat \<Rightarrow> string" where
  "digits n = (if n < 10 then [digit n] else digits (n div 10) @ [digit (n mod 10)])"

declare digits.simps [simp del]

definition String_of :: "int \<Rightarrow> string" where
  "String_of n = (if n < 0 then CHR ''-'' # digits (nat (- n)) else digits (nat n))"

text \<open>\<^verbatim>\<open>Math.ceil(x / 1000)\<close> on an integer \<open>x\<close>.\<close>

definition ceil_div_1000 :: "int \<Rightarrow> int" where
  "ceil_div_1000 x = - ((- x) div 1000)"

subsection \<open>\<^verbatim>\<open>getClientIp\<close>\<close>

text \<open>
  \<open>first\<close> is \<^verbatim>\<open>Array.isArray(header) ? header[0] : header\<close>. The list \<open>split\<close> returns is
  never empty (lemma \<open>split_not_Nil\<close> below), so its element \<^verbatim>\<open>[0]\<close> is its head.
\<close>

definition getClientIp :: "Request \<Rightarrow> string" where
  "getClientIp req =
     (let header = x_forwarded_for req;
          first = (case header of
                     None \<Rightarrow> None
                   | Some (Single s) \<Rightarrow> Some s
                   | Some (Multi xs) \<Rightarrow> (case xs of [] \<Rightarrow> None | x # _ \<Rightarrow> Some x))
      in case first of
           Some s \<Rightarrow>
             if length s > 0 then trim (hd (split CHR '','' s))
             else or_else (ip req) (or_else (remoteAddress req) ''unknown'')
         | None \<Rightarrow> or_else (ip req) (or_else (remoteAddress req) ''unknown''))"

subsection \<open>\<^verbatim>\<open>createRateLimiter\<close>\<close>

text \<open>The constants the closure captures when the limiter is created.\<close>

definition eff_windowMs :: "RateLimitOptions \<Rightarrow> int" where
  "eff_windowMs options = max 1000 (windowMs options)"

definition eff_max :: "RateLimitOptions \<Rightarrow> int" where
  "eff_max options = max 1 (max_opt options)"

definition eff_keyGenerator :: "RateLimitOptions \<Rightarrow> Request \<Rightarrow> string" where
  "eff_keyGenerator options =
     (case keyGenerator options of Some g \<Rightarrow> g | None \<Rightarrow> (\<lambda>req. getClientIp req))"

definition new_buckets :: buckets where
  "new_buckets = []"

definition sweep_interval :: "RateLimitOptions \<Rightarrow> int" where
  "sweep_interval options = min (eff_windowMs options) 60000"

text \<open>
  The body of the interval callback: one pass over the entries, deleting the key of every
  entry whose \<open>resetAt\<close> has passed. The pass visits each entry present at its start once
  (an entry is only ever deleted while it is the current one).
\<close>

fun sweep_loop :: "(string \<times> Bucket) list \<Rightarrow> buckets \<Rightarrow> int \<Rightarrow> buckets" where
  "sweep_loop [] buckets now = buckets"
| "sweep_loop ((key, bucket) # entries) buckets now =
     sweep_loop entries
       (if resetAt bucket \<le> now then AList.delete key buckets else buckets) now"

definition sweep :: "buckets \<Rightarrow> int \<Rightarrow> buckets" where
  "sweep buckets now = sweep_loop buckets buckets now"

text \<open>The error message of the rejection body: \<^verbatim>\<open>options.message || "Too many ..."\<close>.\<close>

definition error_message :: "RateLimitOptions \<Rightarrow> string" where
  "error_message options = or_else (message options) ''Too many requests. Please try again later.''"

text \<open>The returned middleware, as a function of the registry and the clock.\<close>

definition rateLimiter ::
  "RateLimitOptions \<Rightarrow> buckets \<Rightarrow> int \<Rightarrow> Request \<Rightarrow> buckets \<times> Outcome" where
  "rateLimiter options buckets now req =
     (let key = eff_keyGenerator options req;
          existing = map_of buckets key;
          opened =
            (AList.update key \<lparr>count = 1, resetAt = now + eff_windowMs options\<rparr> buckets,
             \<lparr>setHeader =
                [(''X-RateLimit-Limit'', String_of (eff_max options)),
                 (''X-RateLimit-Remaining'', String_of (eff_max options - 1)),
                 (''X-RateLimit-Reset'', String_of (ceil_div_1000 (now + eff_windowMs options)))],
              action = Next\<rparr>)
      in case existing of
           None \<Rightarrow> opened
         | Some existing \<Rightarrow>
             if resetAt existing \<le> now then opened
             else if count existing \<ge> eff_max options then
               (let retryAfterSeconds = max 1 (ceil_div_1000 (resetAt existing - now))
                in (buckets,
                    \<lparr>setHeader =
                       [(''Retry-After'', String_of retryAfterSeconds),
                        (''X-RateLimit-Limit'', String_of (eff_max options)),
                        (''X-RateLimit-Remaining'', ''0''),
                        (''X-RateLimit-Reset'', String_of (ceil_div_1000 (resetAt existing)))],
                     action = StatusJson 429 [(''error'', error_message options)]\<rparr>))
             else
               (let existing = existing\<lparr>count := count existing + 1\<rparr>
                in (AList.update key existing buckets,
                    \<lparr>setHeader =
                       [(''X-RateLimit-Limit'', String_of (eff_max options)),
                        (''X-RateLimit-Remaining'',
                           String_of (max 0 (eff_max options - count existing))),
                        (''X-RateLimit-Reset'', String_of (ceil_div_1000 (resetAt existing)))],
                     action = Next\<rparr>)))"

text \<open>The value a response header was set to.\<close>

definition header_of :: "Outcome \<Rightarrow> string \<Rightarrow> string option" where
  "header_of out name = map_of (setHeader out) name"

subsection \<open>The event loop\<close>

text \<open>
  Requests and timer ticks run one after the other on one thread, each to completion.
  \<open>run\<close> feeds a list of events to one limiter and collects, for every request, its key
  and what the middleware did.
\<close>

datatype event = Request_at int Request | Tick_at int

fun run :: "RateLimitOptions \<Rightarrow> buckets \<Rightarrow> event list \<Rightarrow> (string \<times> Outcome) list" where
  "run options buckets [] = []"
| "run options buckets (Request_at now req # es) =
     (eff_keyGenerator options req, snd (rateLimiter options buckets now req))
       # run options (fst (rateLimiter options buckets now req)) es"
| "run options buckets (Tick_at now # es) = run options (sweep buckets now) es"

text \<open>The registry the same events leave behind.\<close>

fun registry_after :: "RateLimitOptions \<Rightarrow> buckets \<Rightarrow> event list \<Rightarrow> buckets" where
  "registry_after options buckets [] = buckets"
| "registry_after options buckets (Request_at now req # es) =
     registry_after options (fst (rateLimiter options buckets now req)) es"
| "registry_after options buckets (Tick_at now # es) = registry_after options (sweep buckets now) es"

definition outcomes_for :: "string \<Rightarrow> (string \<times> Outcome) list \<Rightarrow> Outcome list" where
  "outcomes_for k rs = map snd (filter (\<lambda>r. fst r = k) rs)"

text \<open>
  An event lies inside the window of key \<open>k\<close> that ends at \<open>r\<close>: a request of \<open>k\<close>, or a
  sweep, happens while \<open>r\<close> has not passed. Requests of other keys are unconstrained.
\<close>

fun in_window :: "RateLimitOptions \<Rightarrow> string \<Rightarrow> int \<Rightarrow> event \<Rightarrow> bool" where
  "in_window options k r (Request_at now req) = (eff_keyGenerator options req = k \<longrightarrow> now < r)"
| "in_window options k r (Tick_at now) = (now < r)"

text \<open>
  The test \<^verbatim>\<open>!existing || existing.resetAt <= now\<close> of the middleware, for the key \<open>k\<close>:
  there is nothing to count against, so the request opens a window.
\<close>

definition opens_window :: "buckets \<Rightarrow> string \<Rightarrow> int \<Rightarrow> bool" where
  "opens_window buckets k now =
     (case map_of buckets k of None \<Rightarrow> True | Some existing \<Rightarrow> resetAt existing \<le> now)"

text \<open>The keys one sweep over \<open>es\<close> deletes (used in the proofs about \<open>sweep_loop\<close>).\<close>

definition expired_keys :: "(string \<times> Bucket) list \<Rightarrow> int \<Rightarrow> string set" where
  "expired_keys es now = fst ` set (filter (\<lambda>e. resetAt (snd e) \<le> now) es)"

subsection \<open>Scenario inputs\<close>

text \<open>
  The limiter of the specification's scenarios (\<^verbatim>\<open>{windowMs: 1000, max: 2}\<close>), requests
  that carry a forwarded address, and a short run of events of two clients and a sweep.
\<close>

definition scenario_options :: RateLimitOptions where
  "scenario_options = \<lparr>windowMs = 1000, max_opt = 2, keyGenerator = None, message = None\<rparr>"

definition request_from :: "string \<Rightarrow> Request" where
  "request_from addr = \<lparr>x_forwarded_for = Some (Single addr), ip = None, remoteAddress = None\<rparr>"

definition scenario_events :: "event list" where
  "scenario_events =
     [Request_at 10 (request_from ''1.2.3.4''), Tick_at 15,
      Request_at 17 (request_from ''5.6.7.8''), Request_at 20 (request_from ''1.2.3.4'')]"

text \<open>The same limiter with the empty string configured as its message.\<close>

definition blank_message_options :: RateLimitOptions where
  "blank_message_options = \<lparr>windowMs = 1000, max_opt = 2, keyGenerator = None, message = Some ''''\<rparr>"

section \<open>Properties\<close>

subsection \<open>The primitives\<close>

lemma split_not_Nil: "split sep s \<noteq> []"
  by (induction s) (auto split: list.splits)

lemma hd_split: "hd (split sep s) = takeWhile (\<lambda>c. c \<noteq> sep) s"
  by (induction s) (auto split: list.splits simp: split_not_Nil)

lemma ceil_div_1000_real: "ceil_div_1000 x = \<lceil>real_of_int x / 1000\<rceil>"
  unfolding ceil_div_1000_def using ceiling_divide_eq_div[of x 1000, where ?'a = real] by simp

lemma ceil_div_1000_pos: "0 < x \<Longrightarrow> 1 \<le> ceil_div_1000 x"
  unfolding ceil_div_1000_def by linarith

lemma String_of_0: "String_of 0 = ''0''"
  by (simp add: String_of_def digits.simps digit_def)

lemma trim_decomposition:
  "\<exists>l r. s = l @ trim s @ r \<and> list_all is_space l \<and> list_all is_space r"
proof -
  let ?d = "dropWhile is_space s"
  have "s = takeWhile is_space s @ ?d" by simp
  moreover have "?d = trim s @ rev (takeWhile is_space (rev ?d))"
  proof -
    have "trim s @ rev (takeWhile is_space (rev ?d)) =
        rev (takeWhile is_space (rev ?d) @ dropWhile is_space (rev ?d))"
      by (simp only: trim_def rev_append)
    also have "\<dots> = rev (rev ?d)"
      by (simp only: takeWhile_dropWhile_id)
    finally show ?thesis by simp
  qed
  ultimately have "s = takeWhile is_space s @ trim s @ rev (takeWhile is_space (rev ?d))"
    by simp
  moreover have "list_all is_space (takeWhile is_space s)"
    by (simp add: list_all_iff) (meson set_takeWhileD)
  moreover have "list_all is_space (rev (takeWhile is_space (rev ?d)))"
    by (simp add: list_all_iff) (meson set_takeWhileD)
  ultimately show ?thesis by blast
qed

lemma trim_ends:
  assumes "trim s \<noteq> []"
  shows "\<not> is_space (hd (trim s)) \<and> \<not> is_space (last (trim s))"
proof -
  let ?d = "dropWhile is_space s"
  let ?e = "dropWhile is_space (rev ?d)"
  have e: "?e \<noteq> []" using assms by (simp add: trim_def)
  then have "\<not> is_space (hd ?e)" by (rule hd_dropWhile)
  then have l: "\<not> is_space (last (trim s))"
    using e by (simp add: trim_def last_rev)
  have d: "?d \<noteq> []"
  proof
    assume "?d = []"
    then have "?e = []" by (simp only: rev.simps dropWhile.simps)
    with e show False by contradiction
  qed
  then have hd: "\<not> is_space (hd ?d)" by (rule hd_dropWhile)
  have "rev ?d = takeWhile is_space (rev ?d) @ ?e" by simp
  then have "last (rev ?d) = last ?e"
    using e by (metis last_appendR)
  then have "hd (trim s) = hd ?d"
    using d e by (simp add: trim_def hd_rev last_rev)
  with hd l show ?thesis by simp
qed

lemma trim_Nil_iff: "trim s = [] \<longleftrightarrow> list_all is_space s"
proof
  assume "trim s = []"
  with trim_decomposition[of s] show "list_all is_space s"
    by (metis append_Nil list_all_append)
next
  assume a: "list_all is_space s"
  then have "dropWhile is_space s = []"
    by (induction s) simp_all
  then show "trim s = []" by (simp only: trim_def rev.simps dropWhile.simps)
qed

lemma first_segment:
  "\<exists>rest. s = takeWhile (\<lambda>c. c \<noteq> sep) s @ rest \<and> (rest = [] \<or> hd rest = sep)
     \<and> sep \<notin> set (takeWhile (\<lambda>c. c \<noteq> sep) s)"
proof -
  let ?rest = "dropWhile (\<lambda>c. c \<noteq> sep) s"
  have "s = takeWhile (\<lambda>c. c \<noteq> sep) s @ ?rest" by simp
  moreover have "?rest = [] \<or> hd ?rest = sep"
    using hd_dropWhile[of "\<lambda>c. c \<noteq> sep" s] by blast
  moreover have "sep \<notin> set (takeWhile (\<lambda>c. c \<noteq> sep) s)"
    using set_takeWhileD by fastforce
  ultimately show ?thesis by blast
qed

lemma getClientIp_forwarded:
  assumes "x_forwarded_for req = Some (Single s)" and "s \<noteq> []"
  shows "getClientIp req = trim (takeWhile (\<lambda>c. c \<noteq> CHR '','') s)"
  using assms by (simp add: getClientIp_def hd_split)

lemma getClientIp_not_forwarded:
  assumes "x_forwarded_for req = None \<or> x_forwarded_for req = Some (Single [])"
  shows "getClientIp req = or_else (ip req) (or_else (remoteAddress req) ''unknown'')"
  using assms by (auto simp: getClientIp_def)

subsection \<open>The sweep as a filter\<close>

lemma expired_keys_Nil: "expired_keys [] now = {}"
  by (simp add: expired_keys_def)

lemma expired_keys_Cons:
  "expired_keys ((key, bucket) # es) now =
     (if resetAt bucket \<le> now then insert key (expired_keys es now) else expired_keys es now)"
  by (simp add: expired_keys_def)

lemma sweep_loop_filter:
  "sweep_loop es bs now = filter (\<lambda>p. fst p \<notin> expired_keys es now) bs"
proof (induction es arbitrary: bs)
  case Nil
  then show ?case by (simp add: expired_keys_Nil)
next
  case (Cons e es)
  obtain key bucket where e: "e = (key, bucket)" by (cases e)
  have "filter (\<lambda>p. fst p \<notin> expired_keys es now) (AList.delete key bs)
          = filter (\<lambda>p. fst p \<notin> insert key (expired_keys es now)) bs"
    by (induction bs) auto
  then show ?case
    unfolding e by (simp add: Cons.IH expired_keys_Cons)
qed

lemma expired_keys_distinct:
  assumes "distinct (map fst bs)" and "p \<in> set bs"
  shows "fst p \<in> expired_keys bs now \<longleftrightarrow> resetAt (snd p) \<le> now"
proof
  assume "fst p \<in> expired_keys bs now"
  then obtain q where q: "q \<in> set bs" "resetAt (snd q) \<le> now" "fst q = fst p"
    by (auto simp: expired_keys_def)
  have "(fst p, snd q) \<in> set bs" "(fst p, snd p) \<in> set bs"
    using q(1,3) assms(2) by (metis prod.collapse)+
  then have "snd q = snd p"
    using assms(1) eq_key_imp_eq_value by fastforce
  with q(2) show "resetAt (snd p) \<le> now" by simp
next
  assume "resetAt (snd p) \<le> now"
  with assms(2) show "fst p \<in> expired_keys bs now"
    by (auto simp: expired_keys_def)
qed

lemma sweep_filter:
  assumes "distinct (map fst bs)"
  shows "sweep bs now = filter (\<lambda>p. \<not> resetAt (snd p) \<le> now) bs"
  unfolding sweep_def sweep_loop_filter
  by (rule filter_cong) (simp_all add: expired_keys_distinct[OF assms])

lemma distinct_sweep: "distinct (map fst bs) \<Longrightarrow> distinct (map fst (sweep bs now))"
  by (simp add: sweep_filter distinct_map_filter)

lemma map_of_sweep:
  assumes "distinct (map fst bs)"
  shows "map_of (sweep bs now) k =
           (case map_of bs k of None \<Rightarrow> None
            | Some b \<Rightarrow> if resetAt b \<le> now then None else Some b)"
proof -
  have "map_of (filter (\<lambda>p. \<not> resetAt (snd p) \<le> now) bs) k =
          (case map_of bs k of None \<Rightarrow> None
           | Some b \<Rightarrow> if resetAt b \<le> now then None else Some b)"
    using assms
  proof (induction bs)
    case Nil
    then show ?case by simp
  next
    case (Cons p bs)
    then show ?case
      by (cases p) (auto simp: map_of_eq_None_iff image_iff split: option.splits)
  qed
  then show ?thesis by (simp add: sweep_filter[OF assms])
qed

subsection \<open>The three paths of the middleware\<close>

lemma rateLimiter_opens:
  assumes "opens_window bs (eff_keyGenerator opts req) now"
  shows "rateLimiter opts bs now req =
           (AList.update (eff_keyGenerator opts req)
              \<lparr>count = 1, resetAt = now + eff_windowMs opts\<rparr> bs,
            \<lparr>setHeader =
               [(''X-RateLimit-Limit'', String_of (eff_max opts)),
                (''X-RateLimit-Remaining'', String_of (eff_max opts - 1)),
                (''X-RateLimit-Reset'', String_of (ceil_div_1000 (now + eff_windowMs opts)))],
             action = Next\<rparr>)"
  using assms
  by (cases "map_of bs (eff_keyGenerator opts req)")
     (simp_all add: rateLimiter_def opens_window_def Let_def)

lemma rateLimiter_rejects:
  assumes "map_of bs (eff_keyGenerator opts req) = Some b"
      and "now < resetAt b" and "eff_max opts \<le> count b"
  shows "rateLimiter opts bs now req =
           (bs,
            \<lparr>setHeader =
               [(''Retry-After'', String_of (max 1 (ceil_div_1000 (resetAt b - now)))),
                (''X-RateLimit-Limit'', String_of (eff_max opts)),
                (''X-RateLimit-Remaining'', ''0''),
                (''X-RateLimit-Reset'', String_of (ceil_div_1000 (resetAt b)))],
             action = StatusJson 429 [(''error'', error_message opts)]\<rparr>)"
  using assms by (simp add: rateLimiter_def Let_def)

lemma rateLimiter_counts:
  assumes "map_of bs (eff_keyGenerator opts req) = Some b"
      and "now < resetAt b" and "count b < eff_max opts"
  shows "rateLimiter opts bs now req =
           (AList.update (eff_keyGenerator opts req) (b\<lparr>count := count b + 1\<rparr>) bs,
            \<lparr>setHeader =
               [(''X-RateLimit-Limit'', String_of (eff_max opts)),
                (''X-RateLimit-Remaining'', String_of (max 0 (eff_max opts - (count b + 1)))),
                (''X-RateLimit-Reset'', String_of (ceil_div_1000 (resetAt b)))],
             action = Next\<rparr>)"
  using assms by (simp add: rateLimiter_def Let_def)

lemma rateLimiter_cases:
  obtains (opens) "opens_window bs (eff_keyGenerator opts req) now"
  | (rejects) b where "map_of bs (eff_keyGenerator opts req) = Some b" "now < resetAt b" "eff_max opts \<le> count b"
  | (counts) b where "map_of bs (eff_keyGenerator opts req) = Some b" "now < resetAt b" "count b < eff_max opts"
  by (cases "map_of bs (eff_keyGenerator opts req)") (fastforce simp: opens_window_def)+

lemma rateLimiter_frame:
  assumes "k' \<noteq> eff_keyGenerator opts req"
  shows "map_of (fst (rateLimiter opts bs now req)) k' = map_of bs k'"
  using assms
  by (cases rule: rateLimiter_cases[of bs opts req now])
     (simp_all add: rateLimiter_opens rateLimiter_rejects rateLimiter_counts update_conv')

lemma distinct_rateLimiter:
  assumes "distinct (map fst bs)"
  shows "distinct (map fst (fst (rateLimiter opts bs now req)))"
  using assms
  by (cases rule: rateLimiter_cases[of bs opts req now])
     (simp_all add: rateLimiter_opens rateLimiter_rejects rateLimiter_counts distinct_update)

lemma eff_max_pos: "1 \<le> eff_max opts"
  by (simp add: eff_max_def)

text \<open>
  The keys of the registry stay pairwise distinct, as the keys of a \<^verbatim>\<open>Map\<close> are: the registry
  starts empty, and neither the middleware nor the sweep breaks it.
\<close>

lemma distinct_registry_after:
  "distinct (map fst bs) \<Longrightarrow> distinct (map fst (registry_after opts bs es))"
proof (induction es arbitrary: bs)
  case Nil
  then show ?case by simp
next
  case (Cons e es)
  then show ?case
    by (cases e) (simp_all add: distinct_rateLimiter distinct_sweep)
qed

lemma distinct_reachable: "distinct (map fst (registry_after opts new_buckets es))"
  by (rule distinct_registry_after) (simp add: new_buckets_def)

subsection \<open>A window of one key, seen through the event loop\<close>

lemma outcomes_for_Cons:
  "outcomes_for k ((k', out) # rs) =
     (if k' = k then out # outcomes_for k rs else outcomes_for k rs)"
  by (simp add: outcomes_for_def)

lemma run_in_window:
  assumes "distinct (map fst bs)"
      and "map_of bs k = Some b"
      and "\<forall>e \<in> set es. in_window opts k (resetAt b) e"
      and "j < length (outcomes_for k (run opts bs es))"
  shows "action (outcomes_for k (run opts bs es) ! j) =
           (if count b + int j < eff_max opts then Next
            else StatusJson 429 [(''error'', error_message opts)])
       \<and> header_of (outcomes_for k (run opts bs es) ! j) ''X-RateLimit-Remaining'' =
           Some (String_of (max 0 (eff_max opts - (count b + int j) - 1)))"
  using assms
proof (induction es arbitrary: bs b j)
  case Nil
  then show ?case by (simp add: outcomes_for_def)
next
  case (Cons e es)
  show ?case
  proof (cases e)
    case (Tick_at now)
    with Cons.prems have "now < resetAt b" by simp
    with Cons.prems(1,2) have "map_of (sweep bs now) k = Some b"
      by (simp add: map_of_sweep)
    moreover have "distinct (map fst (sweep bs now))"
      using Cons.prems(1) by (rule distinct_sweep)
    ultimately show ?thesis
      using Cons.IH[of "sweep bs now" b j] Cons.prems(3,4) Tick_at by simp
  next
    case (Request_at now req)
    let ?bs' = "fst (rateLimiter opts bs now req)"
    let ?out = "snd (rateLimiter opts bs now req)"
    have d': "distinct (map fst ?bs')"
      using Cons.prems(1) by (rule distinct_rateLimiter)
    show ?thesis
    proof (cases "eff_keyGenerator opts req = k")
      case False
      then have "map_of ?bs' k = Some b"
        using Cons.prems(2) by (simp add: rateLimiter_frame)
      then show ?thesis
        using Cons.IH[of ?bs' b j] d' Cons.prems(3,4) Request_at False
        by (simp add: outcomes_for_Cons)
    next
      case True
      with Cons.prems(3) Request_at have now: "now < resetAt b" by simp
      have m: "map_of bs (eff_keyGenerator opts req) = Some b"
        using True Cons.prems(2) by simp
      have outs: "outcomes_for k (run opts bs (e # es)) = ?out # outcomes_for k (run opts ?bs' es)"
        using Request_at True by (simp add: outcomes_for_Cons)
      show ?thesis
      proof (cases "count b < eff_max opts")
        case full: False
        then have step: "rateLimiter opts bs now req =
            (bs, \<lparr>setHeader =
               [(''Retry-After'', String_of (max 1 (ceil_div_1000 (resetAt b - now)))),
                (''X-RateLimit-Limit'', String_of (eff_max opts)),
                (''X-RateLimit-Remaining'', ''0''),
                (''X-RateLimit-Reset'', String_of (ceil_div_1000 (resetAt b)))],
             action = StatusJson 429 [(''error'', error_message opts)]\<rparr>)"
          using rateLimiter_rejects[OF m now] by simp
        show ?thesis
        proof (cases j)
          case 0
          then show ?thesis
            using full by (simp add: outs step header_of_def String_of_0)
        next
          case (Suc j')
          have "j' < length (outcomes_for k (run opts bs es))"
            using Cons.prems(4) Suc by (simp add: outs step)
          from Cons.IH[OF Cons.prems(1,2) _ this] Cons.prems(3)
          show ?thesis
            using full Suc by (simp add: outs step)
        qed
      next
        case room: True
        let ?b' = "b\<lparr>count := count b + 1\<rparr>"
        have step: "rateLimiter opts bs now req =
            (AList.update k ?b' bs,
             \<lparr>setHeader =
               [(''X-RateLimit-Limit'', String_of (eff_max opts)),
                (''X-RateLimit-Remaining'', String_of (max 0 (eff_max opts - (count b + 1)))),
                (''X-RateLimit-Reset'', String_of (ceil_div_1000 (resetAt b)))],
              action = Next\<rparr>)"
          using rateLimiter_counts[OF m now room] True by simp
        show ?thesis
        proof (cases j)
          case 0
          then show ?thesis
            using room by (simp add: outs step header_of_def algebra_simps)
        next
          case (Suc j')
          have len: "j' < length (outcomes_for k (run opts (AList.update k ?b' bs) es))"
            using Cons.prems(4) Suc by (simp add: outs step)
          have m': "map_of (AList.update k ?b' bs) k = Some ?b'"
            by (simp add: update_conv')
          have d'': "distinct (map fst (AList.update k ?b' bs))"
            using Cons.prems(1) by (rule distinct_update)
          have w: "\<forall>e \<in> set es. in_window opts k (resetAt ?b') e"
            using Cons.prems(3) by simp
          from Cons.IH[OF d'' m' w len]
          show ?thesis
            using Suc by (simp add: outs step algebra_simps)
        qed
      qed
    qed
  qed
qed

lemma remaining_tracks_count:
  "\<exists>b. map_of (fst (rateLimiter opts bs now req)) (eff_keyGenerator opts req) = Some b
       \<and> header_of (snd (rateLimiter opts bs now req)) ''X-RateLimit-Remaining'' =
           Some (String_of (max 0 (eff_max opts - count b)))"
proof (cases rule: rateLimiter_cases[of bs opts req now])
  case opens
  then show ?thesis
    using eff_max_pos[of opts]
    by (simp add: rateLimiter_opens update_conv' header_of_def max_def)
next
  case (rejects b)
  then show ?thesis
    by (simp add: rateLimiter_rejects header_of_def String_of_0)
next
  case (counts b)
  then show ?thesis
    by (simp add: rateLimiter_counts update_conv' header_of_def)
qed

lemma error_message_cases:
  "error_message opts =
     (case message opts of
        None \<Rightarrow> ''Too many requests. Please try again later.''
      | Some m \<Rightarrow> if m = [] then ''Too many requests. Please try again later.'' else m)"
  by (simp add: error_message_def or_else_def split: option.splits)

lemma only_full_active_bucket_rejects:
  assumes "action (snd (rateLimiter opts bs now req)) = StatusJson st body"
  shows "st = 429 \<and> body = [(''error'', error_message opts)]
         \<and> fst (rateLimiter opts bs now req) = bs
         \<and> (\<exists>b. map_of bs (eff_keyGenerator opts req) = Some b \<and> now < resetAt b
                 \<and> eff_max opts \<le> count b)"
  using assms
  by (cases rule: rateLimiter_cases[of bs opts req now])
     (simp_all add: rateLimiter_opens rateLimiter_rejects rateLimiter_counts)

lemma filter_key_update_other:
  "k' \<noteq> k \<Longrightarrow>
     filter (\<lambda>entry. fst entry = k') (AList.update k v bs) = filter (\<lambda>entry. fst entry = k') bs"
  by (induction bs) auto

lemma rateLimiter_own_bucket_only:
  assumes "map_of bs2 (eff_keyGenerator opts req) = map_of bs (eff_keyGenerator opts req)"
  shows "snd (rateLimiter opts bs2 now req) = snd (rateLimiter opts bs now req)
       \<and> map_of (fst (rateLimiter opts bs2 now req)) (eff_keyGenerator opts req) =
           map_of (fst (rateLimiter opts bs now req)) (eff_keyGenerator opts req)"
proof (cases rule: rateLimiter_cases[of bs opts req now])
  case opens
  moreover from opens assms have "opens_window bs2 (eff_keyGenerator opts req) now"
    by (simp add: opens_window_def)
  ultimately show ?thesis
    by (simp add: rateLimiter_opens update_conv')
next
  case (rejects b)
  moreover from rejects assms have "map_of bs2 (eff_keyGenerator opts req) = Some b"
    by simp
  ultimately show ?thesis
    using assms by (simp add: rateLimiter_rejects)
next
  case (counts b)
  moreover from counts assms have "map_of bs2 (eff_keyGenerator opts req) = Some b"
    by simp
  ultimately show ?thesis
    by (simp add: rateLimiter_counts update_conv')
qed

subsection \<open>The scenario inputs, evaluated\<close>

lemma key_of_scenario_request:
  "eff_keyGenerator scenario_options (request_from ''1.2.3.4'') = ''1.2.3.4''"
  by (simp add: eff_keyGenerator_def scenario_options_def request_from_def getClientIp_def
      trim_def is_space_def)

lemma eff_max_scenario: "eff_max scenario_options = 2"
  by (simp add: eff_max_def scenario_options_def)

lemma eff_windowMs_scenario: "eff_windowMs scenario_options = 1000"
  by (simp add: eff_windowMs_def scenario_options_def)

lemma error_message_scenario:
  "error_message scenario_options = ''Too many requests. Please try again later.''"
  by (simp add: error_message_def or_else_def scenario_options_def)

section \<open>The claims\<close>

text \<open>
  C1. For a key \<open>k\<close> and a limiter with effective maximum \<open>N = eff_max opts\<close> and window
  \<open>W = eff_windowMs opts\<close>: take a request of \<open>k\<close> at time \<open>t0\<close> that opens a window, followed
  by any events (requests of any key, sweeps) in which every request of \<open>k\<close> and every sweep
  happens before \<open>t0 + W\<close>. Then among the responses to \<open>k\<close>, in order, the first \<open>N\<close> call
  the next handler and every later one is the 429 response.
\<close>

theorem first_max_allowed_then_429:
  assumes "distinct (map fst bs)"
      and "eff_keyGenerator opts req0 = k"
      and "opens_window bs k t0"
      and "list_all (in_window opts k (t0 + eff_windowMs opts)) es"
      and "j < length (outcomes_for k (run opts bs (Request_at t0 req0 # es)))"
  shows "if int j < eff_max opts
         then action (outcomes_for k (run opts bs (Request_at t0 req0 # es)) ! j) = Next
         else action (outcomes_for k (run opts bs (Request_at t0 req0 # es)) ! j) =
                StatusJson 429 [(''error'', error_message opts)]"
proof -
  let ?b = "\<lparr>count = 1, resetAt = t0 + eff_windowMs opts\<rparr>"
  let ?bs' = "AList.update k ?b bs"
  have step: "rateLimiter opts bs t0 req0 =
      (?bs', \<lparr>setHeader =
               [(''X-RateLimit-Limit'', String_of (eff_max opts)),
                (''X-RateLimit-Remaining'', String_of (eff_max opts - 1)),
                (''X-RateLimit-Reset'', String_of (ceil_div_1000 (t0 + eff_windowMs opts)))],
             action = Next\<rparr>)"
    using rateLimiter_opens[of bs opts req0 t0] assms(2,3) by simp
  have outs: "outcomes_for k (run opts bs (Request_at t0 req0 # es)) =
      snd (rateLimiter opts bs t0 req0) # outcomes_for k (run opts ?bs' es)"
    using assms(2) by (simp add: outcomes_for_Cons step)
  show ?thesis
  proof (cases j)
    case 0
    then show ?thesis
      unfolding outs step using eff_max_pos[of opts] by simp
  next
    case (Suc j')
    have len: "j' < length (outcomes_for k (run opts ?bs' es))"
      using assms(5) unfolding outs Suc by simp
    have d: "distinct (map fst ?bs')"
      using assms(1) by (rule distinct_update)
    have m: "map_of ?bs' k = Some ?b"
      by (simp add: update_conv')
    have w: "\<forall>e \<in> set es. in_window opts k (resetAt ?b) e"
      using assms(4) by (simp add: list_all_iff)
    from run_in_window[OF d m w len] show ?thesis
      unfolding outs using Suc by (simp add: algebra_simps)
  qed
qed

theorem first_max_allowed_then_429_witness:
  "distinct (map fst ([] :: buckets))
   \<and> eff_keyGenerator scenario_options (request_from ''1.2.3.4'') = ''1.2.3.4''
   \<and> opens_window [] ''1.2.3.4'' 0
   \<and> list_all (in_window scenario_options ''1.2.3.4'' (0 + eff_windowMs scenario_options))
         scenario_events
   \<and> 2 < length (outcomes_for ''1.2.3.4''
             (run scenario_options [] (Request_at 0 (request_from ''1.2.3.4'') # scenario_events)))
   \<and> eff_max scenario_options = 2
   \<and> action (outcomes_for ''1.2.3.4''
         (run scenario_options [] (Request_at 0 (request_from ''1.2.3.4'') # scenario_events)) ! 2)
       = StatusJson 429 [(''error'', ''Too many requests. Please try again later.'')]"
proof -
  have k: "eff_keyGenerator scenario_options (request_from ''1.2.3.4'') = ''1.2.3.4''"
    by (simp add: eff_keyGenerator_def scenario_options_def request_from_def getClientIp_def
        trim_def is_space_def)
  have k': "eff_keyGenerator scenario_options (request_from ''5.6.7.8'') = ''5.6.7.8''"
    by (simp add: eff_keyGenerator_def scenario_options_def request_from_def getClientIp_def
        trim_def is_space_def)
  have o: "opens_window [] ''1.2.3.4'' 0"
    by (simp add: opens_window_def)
  have w: "list_all (in_window scenario_options ''1.2.3.4'' (0 + eff_windowMs scenario_options))
         scenario_events"
    by (simp add: scenario_events_def eff_windowMs_def scenario_options_def)
  have l: "length (outcomes_for ''1.2.3.4''
             (run scenario_options [] (Request_at 0 (request_from ''1.2.3.4'') # scenario_events))) = 3"
    by (simp add: scenario_events_def outcomes_for_def k k')
  have n: "eff_max scenario_options = 2"
    by (simp add: eff_max_def scenario_options_def)
  have e: "error_message scenario_options = ''Too many requests. Please try again later.''"
    by (simp add: error_message_def or_else_def scenario_options_def)
  have j: "2 < length (outcomes_for ''1.2.3.4''
             (run scenario_options [] (Request_at 0 (request_from ''1.2.3.4'') # scenario_events)))"
    unfolding l by simp
  have d: "distinct (map fst ([] :: buckets))" by simp
  from first_max_allowed_then_429[OF d k o w j] show ?thesis
    using k o w j n e by simp
qed

text \<open>
  C2, as stated, fails: a rejected request does not increment the count. With the limit 2
  and the bucket of \<^verbatim>\<open>1.2.3.4\<close> at count 2, a request at time 20 (window open until 1000)
  is answered 429 and the stored count is still 2, not 3.
\<close>

theorem rejected_request_does_not_count:
  "action (snd (rateLimiter scenario_options
        [(''1.2.3.4'', \<lparr>count = 2, resetAt = 1000\<rparr>)] 20 (request_from ''1.2.3.4''))) =
     StatusJson 429 [(''error'', ''Too many requests. Please try again later.'')]
   \<and> map_of (fst (rateLimiter scenario_options
        [(''1.2.3.4'', \<lparr>count = 2, resetAt = 1000\<rparr>)] 20 (request_from ''1.2.3.4'')))
         ''1.2.3.4'' = Some \<lparr>count = 2, resetAt = 1000\<rparr>
   \<and> map_of (fst (rateLimiter scenario_options
        [(''1.2.3.4'', \<lparr>count = 2, resetAt = 1000\<rparr>)] 20 (request_from ''1.2.3.4'')))
         ''1.2.3.4'' \<noteq> Some \<lparr>count = 2 + 1, resetAt = 1000\<rparr>"
proof -
  have "map_of [(''1.2.3.4'', \<lparr>count = 2, resetAt = 1000\<rparr>)]
          (eff_keyGenerator scenario_options (request_from ''1.2.3.4'')) =
      Some \<lparr>count = 2, resetAt = 1000\<rparr>"
    by (simp add: key_of_scenario_request)
  from rateLimiter_rejects[OF this, of 20] show ?thesis
    by (simp add: eff_max_scenario error_message_scenario)
qed

text \<open>
  C2, amended. The count is 1 when the bucket is created or replaced; a later request of the
  key inside the active window that is accepted stores the count plus 1 (and the same
  \<open>resetAt\<close>); a request that is rejected with 429 leaves the stored bucket as it was.
\<close>

theorem count_starts_at_1_and_counts_accepted:
  "(opens_window bs (eff_keyGenerator opts req) now \<longrightarrow>
      map_of (fst (rateLimiter opts bs now req)) (eff_keyGenerator opts req) =
        Some \<lparr>count = 1, resetAt = now + eff_windowMs opts\<rparr>)
   \<and> (map_of bs (eff_keyGenerator opts req) = Some b \<and> now < resetAt b
        \<and> count b < eff_max opts \<longrightarrow>
      action (snd (rateLimiter opts bs now req)) = Next
      \<and> map_of (fst (rateLimiter opts bs now req)) (eff_keyGenerator opts req) =
          Some \<lparr>count = count b + 1, resetAt = resetAt b\<rparr>)
   \<and> (map_of bs (eff_keyGenerator opts req) = Some b \<and> now < resetAt b
        \<and> eff_max opts \<le> count b \<longrightarrow>
      (\<exists>body. action (snd (rateLimiter opts bs now req)) = StatusJson 429 body)
      \<and> map_of (fst (rateLimiter opts bs now req)) (eff_keyGenerator opts req) = Some b)"
proof -
  let ?k = "eff_keyGenerator opts req"
  have created: "map_of (fst (rateLimiter opts bs now req)) ?k =
      Some \<lparr>count = 1, resetAt = now + eff_windowMs opts\<rparr>"
    if "opens_window bs ?k now"
    using that by (simp add: rateLimiter_opens update_conv')
  have accepted: "action (snd (rateLimiter opts bs now req)) = Next
      \<and> map_of (fst (rateLimiter opts bs now req)) ?k =
          Some \<lparr>count = count b + 1, resetAt = resetAt b\<rparr>"
    if "map_of bs ?k = Some b" "now < resetAt b" "count b < eff_max opts"
    using that by (simp add: rateLimiter_counts update_conv')
  have rejected: "(\<exists>body. action (snd (rateLimiter opts bs now req)) = StatusJson 429 body)
      \<and> map_of (fst (rateLimiter opts bs now req)) ?k = Some b"
    if "map_of bs ?k = Some b" "now < resetAt b" "eff_max opts \<le> count b"
    using that by (simp add: rateLimiter_rejects)
  from created accepted rejected show ?thesis by blast
qed

theorem count_starts_at_1_and_counts_accepted_witness:
  "opens_window [] (eff_keyGenerator scenario_options (request_from ''1.2.3.4'')) 0
   \<and> map_of (fst (rateLimiter scenario_options [] 0 (request_from ''1.2.3.4''))) ''1.2.3.4'' =
        Some \<lparr>count = 1, resetAt = 1000\<rparr>
   \<and> map_of [(''1.2.3.4'', \<lparr>count = 1, resetAt = 1000\<rparr>)]
        (eff_keyGenerator scenario_options (request_from ''1.2.3.4'')) =
        Some \<lparr>count = 1, resetAt = 1000\<rparr>
   \<and> count \<lparr>count = 1, resetAt = 1000\<rparr> < eff_max scenario_options
   \<and> map_of (fst (rateLimiter scenario_options [(''1.2.3.4'', \<lparr>count = 1, resetAt = 1000\<rparr>)] 10
           (request_from ''1.2.3.4''))) ''1.2.3.4'' = Some \<lparr>count = 2, resetAt = 1000\<rparr>
   \<and> map_of [(''1.2.3.4'', \<lparr>count = 2, resetAt = 1000\<rparr>)]
        (eff_keyGenerator scenario_options (request_from ''1.2.3.4'')) =
        Some \<lparr>count = 2, resetAt = 1000\<rparr>
   \<and> eff_max scenario_options \<le> count \<lparr>count = 2, resetAt = 1000\<rparr>
   \<and> map_of (fst (rateLimiter scenario_options [(''1.2.3.4'', \<lparr>count = 2, resetAt = 1000\<rparr>)] 20
           (request_from ''1.2.3.4''))) ''1.2.3.4'' = Some \<lparr>count = 2, resetAt = 1000\<rparr>"
  using
    count_starts_at_1_and_counts_accepted[of "[]" scenario_options "request_from ''1.2.3.4''" 0]
    count_starts_at_1_and_counts_accepted[of "[(''1.2.3.4'', \<lparr>count = 1, resetAt = 1000\<rparr>)]"
      scenario_options "request_from ''1.2.3.4''" 10 "\<lparr>count = 1, resetAt = 1000\<rparr>"]
    count_starts_at_1_and_counts_accepted[of "[(''1.2.3.4'', \<lparr>count = 2, resetAt = 1000\<rparr>)]"
      scenario_options "request_from ''1.2.3.4''" 20 "\<lparr>count = 2, resetAt = 1000\<rparr>"]
  by (simp add: key_of_scenario_request eff_max_scenario eff_windowMs_scenario opens_window_def)

text \<open>
  C3, as stated, fails in one detail: the body does not always carry the configured
  message. With the empty string configured (\<^verbatim>\<open>message: ""\<close>), the rejection of a request
  against a full, active bucket carries the default message, since \<^verbatim>\<open>||\<close> treats the empty
  string as absent.
\<close>

theorem blank_message_is_replaced:
  "map_of [(''1.2.3.4'', \<lparr>count = 2, resetAt = 1000\<rparr>)]
       (eff_keyGenerator blank_message_options (request_from ''1.2.3.4'')) =
     Some \<lparr>count = 2, resetAt = 1000\<rparr>
   \<and> eff_max blank_message_options = 2
   \<and> message blank_message_options = Some ''''
   \<and> action (snd (rateLimiter blank_message_options
         [(''1.2.3.4'', \<lparr>count = 2, resetAt = 1000\<rparr>)] 20 (request_from ''1.2.3.4''))) =
       StatusJson 429 [(''error'', ''Too many requests. Please try again later.'')]
   \<and> action (snd (rateLimiter blank_message_options
         [(''1.2.3.4'', \<lparr>count = 2, resetAt = 1000\<rparr>)] 20 (request_from ''1.2.3.4''))) \<noteq>
       StatusJson 429 [(''error'', '''')]"
proof -
  have k: "eff_keyGenerator blank_message_options (request_from ''1.2.3.4'') = ''1.2.3.4''"
    by (simp add: eff_keyGenerator_def blank_message_options_def request_from_def getClientIp_def
        trim_def is_space_def)
  have n: "eff_max blank_message_options = 2"
    by (simp add: eff_max_def blank_message_options_def)
  have e: "error_message blank_message_options = ''Too many requests. Please try again later.''"
    by (simp add: error_message_def or_else_def blank_message_options_def)
  have m: "message blank_message_options = Some ''''"
    by (simp add: blank_message_options_def)
  have "map_of [(''1.2.3.4'', \<lparr>count = 2, resetAt = 1000\<rparr>)]
          (eff_keyGenerator blank_message_options (request_from ''1.2.3.4'')) =
      Some \<lparr>count = 2, resetAt = 1000\<rparr>"
    by (simp add: k)
  from this rateLimiter_rejects[OF this, of 20] show ?thesis
    by (simp add: n e m)
qed

text \<open>
  C3, amended. A request whose key has an active bucket (\<open>now < resetAt\<close>) with
  \<open>count \<ge> max\<close> is rejected: \<^verbatim>\<open>Retry-After\<close> is \<open>max 1 \<lceil>(resetAt - now) / 1000\<rceil>\<close>, which is at
  least 1, \<^verbatim>\<open>X-RateLimit-Limit\<close> is \<open>max\<close>, \<^verbatim>\<open>X-RateLimit-Remaining\<close> is \<open>0\<close>,
  \<^verbatim>\<open>X-RateLimit-Reset\<close> is \<open>\<lceil>resetAt / 1000\<rceil>\<close>, the response is status 429 with the body
  \<^verbatim>\<open>{error: m}\<close>, where \<open>m\<close> is the configured message when that is a non-empty string and
  the default message otherwise, and the next handler is not called. Conversely, whenever
  the middleware sends a response itself, its status is 429 and the key had an active
  bucket with \<open>count \<ge> max\<close>.
\<close>

theorem rejects_exactly_when_active_and_full:
  "(map_of bs (eff_keyGenerator opts req) = Some b \<and> now < resetAt b \<and> eff_max opts \<le> count b
      \<longrightarrow>
        header_of (snd (rateLimiter opts bs now req)) ''Retry-After'' =
          Some (String_of (max 1 (ceil_div_1000 (resetAt b - now))))
      \<and> max 1 (ceil_div_1000 (resetAt b - now)) = max 1 \<lceil>real_of_int (resetAt b - now) / 1000\<rceil>
      \<and> 1 \<le> max 1 (ceil_div_1000 (resetAt b - now))
      \<and> header_of (snd (rateLimiter opts bs now req)) ''X-RateLimit-Limit'' =
          Some (String_of (eff_max opts))
      \<and> header_of (snd (rateLimiter opts bs now req)) ''X-RateLimit-Remaining'' = Some ''0''
      \<and> header_of (snd (rateLimiter opts bs now req)) ''X-RateLimit-Reset'' =
          Some (String_of (ceil_div_1000 (resetAt b)))
      \<and> ceil_div_1000 (resetAt b) = \<lceil>real_of_int (resetAt b) / 1000\<rceil>
      \<and> action (snd (rateLimiter opts bs now req)) =
          StatusJson 429
            [(''error'',
              case message opts of
                None \<Rightarrow> ''Too many requests. Please try again later.''
              | Some m \<Rightarrow> if m = [] then ''Too many requests. Please try again later.'' else m)]
      \<and> action (snd (rateLimiter opts bs now req)) \<noteq> Next
      \<and> max 1 (ceil_div_1000 (resetAt b - now)) = \<lceil>real_of_int (resetAt b - now) / 1000\<rceil>)
   \<and> (action (snd (rateLimiter opts bs now req)) = StatusJson st body
      \<longrightarrow> st = 429
        \<and> (\<exists>b'. map_of bs (eff_keyGenerator opts req) = Some b' \<and> now < resetAt b'
                 \<and> eff_max opts \<le> count b'))"
proof -
  have only: "st = 429 \<and> (\<exists>b'. map_of bs (eff_keyGenerator opts req) = Some b' \<and> now < resetAt b'
                 \<and> eff_max opts \<le> count b')"
    if "action (snd (rateLimiter opts bs now req)) = StatusJson st body"
    using only_full_active_bucket_rejects[OF that] by simp
  have c1: "max 1 (ceil_div_1000 (resetAt b - now)) = max 1 \<lceil>real_of_int (resetAt b - now) / 1000\<rceil>"
    by (simp only: ceil_div_1000_real)
  have c2: "ceil_div_1000 (resetAt b) = \<lceil>real_of_int (resetAt b) / 1000\<rceil>"
    by (simp only: ceil_div_1000_real)
  have c3: "1 \<le> max 1 (ceil_div_1000 (resetAt b - now))"
    by simp
  have c4: "max 1 (ceil_div_1000 (resetAt b - now)) = \<lceil>real_of_int (resetAt b - now) / 1000\<rceil>"
    if "now < resetAt b"
  proof -
    from that have "1 \<le> ceil_div_1000 (resetAt b - now)"
      by (simp add: ceil_div_1000_pos)
    then have "max 1 (ceil_div_1000 (resetAt b - now)) = ceil_div_1000 (resetAt b - now)"
      by simp
    then show ?thesis by (simp only: ceil_div_1000_real)
  qed
  have rej: "rateLimiter opts bs now req =
           (bs,
            \<lparr>setHeader =
               [(''Retry-After'', String_of (max 1 (ceil_div_1000 (resetAt b - now)))),
                (''X-RateLimit-Limit'', String_of (eff_max opts)),
                (''X-RateLimit-Remaining'', ''0''),
                (''X-RateLimit-Reset'', String_of (ceil_div_1000 (resetAt b)))],
             action = StatusJson 429 [(''error'', error_message opts)]\<rparr>)"
    if "map_of bs (eff_keyGenerator opts req) = Some b" "now < resetAt b" "eff_max opts \<le> count b"
    using that by (rule rateLimiter_rejects)
  show ?thesis
    using only c1 c2 c3 c4 by (auto simp: rej header_of_def error_message_cases)
qed

theorem rejects_exactly_when_active_and_full_witness:
  "map_of [(''1.2.3.4'', \<lparr>count = 2, resetAt = 1000\<rparr>)]
       (eff_keyGenerator scenario_options (request_from ''1.2.3.4'')) =
     Some \<lparr>count = 2, resetAt = 1000\<rparr>
   \<and> (20::int) < resetAt \<lparr>count = 2, resetAt = 1000\<rparr>
   \<and> eff_max scenario_options \<le> count \<lparr>count = 2, resetAt = 1000\<rparr>
   \<and> header_of (snd (rateLimiter scenario_options
         [(''1.2.3.4'', \<lparr>count = 2, resetAt = 1000\<rparr>)] 20 (request_from ''1.2.3.4'')))
        ''Retry-After'' = Some ''1''
   \<and> header_of (snd (rateLimiter scenario_options
         [(''1.2.3.4'', \<lparr>count = 2, resetAt = 1000\<rparr>)] 20 (request_from ''1.2.3.4'')))
        ''X-RateLimit-Limit'' = Some ''2''
   \<and> action (snd (rateLimiter scenario_options
         [(''1.2.3.4'', \<lparr>count = 2, resetAt = 1000\<rparr>)] 20 (request_from ''1.2.3.4''))) =
       StatusJson 429 [(''error'', ''Too many requests. Please try again later.'')]"
proof -
  let ?bs = "[(''1.2.3.4'', \<lparr>count = 2, resetAt = 1000\<rparr>)]"
  let ?out = "snd (rateLimiter scenario_options ?bs 20 (request_from ''1.2.3.4''))"
  have s1: "String_of (max 1 (ceil_div_1000 980)) = ''1''"
    by (simp add: ceil_div_1000_def String_of_def digits.simps digit_def)
  have s2: "String_of 2 = ''2''"
    by (simp add: String_of_def digits.simps digit_def)
  have m: "message scenario_options = None"
    by (simp add: scenario_options_def)
  have h: "map_of ?bs (eff_keyGenerator scenario_options (request_from ''1.2.3.4'')) =
        Some \<lparr>count = 2, resetAt = 1000\<rparr>
      \<and> (20::int) < resetAt \<lparr>count = 2, resetAt = 1000\<rparr>
      \<and> eff_max scenario_options \<le> count \<lparr>count = 2, resetAt = 1000\<rparr>"
    by (simp add: key_of_scenario_request eff_max_scenario)
  note T = rejects_exactly_when_active_and_full[of ?bs scenario_options
      "request_from ''1.2.3.4''" "\<lparr>count = 2, resetAt = 1000\<rparr>" 20,
      THEN conjunct1, THEN mp, OF h]
  have r: "header_of ?out ''Retry-After'' = Some ''1''"
    using T[THEN conjunct1] by (simp add: s1)
  have l: "header_of ?out ''X-RateLimit-Limit'' = Some ''2''"
    using T[THEN conjunct2, THEN conjunct2, THEN conjunct2, THEN conjunct1]
    by (simp add: eff_max_scenario s2)
  have a: "action ?out =
      StatusJson 429 [(''error'', ''Too many requests. Please try again later.'')]"
    using T[THEN conjunct2, THEN conjunct2, THEN conjunct2, THEN conjunct2, THEN conjunct2,
        THEN conjunct2, THEN conjunct2, THEN conjunct1]
    by (simp add: m)
  from h r l a show ?thesis by blast
qed

text \<open>
  C4. A request whose key has no bucket, or a bucket with \<open>resetAt \<le> now\<close>, stores
  \<^verbatim>\<open>{count: 1, resetAt: now + windowMs}\<close> for the key (in place of whatever was there, whatever
  its count), sets \<^verbatim>\<open>X-RateLimit-Limit\<close> to \<open>max\<close>, \<^verbatim>\<open>X-RateLimit-Remaining\<close> to \<open>max - 1\<close> and
  \<^verbatim>\<open>X-RateLimit-Reset\<close> to \<open>\<lceil>(now + windowMs) / 1000\<rceil>\<close>, and calls the next handler.
\<close>

theorem missing_or_expired_bucket_opens_window:
  assumes "map_of bs (eff_keyGenerator opts req) = None
           \<or> (\<exists>b. map_of bs (eff_keyGenerator opts req) = Some b \<and> resetAt b \<le> now)"
  shows "fst (rateLimiter opts bs now req) =
           AList.update (eff_keyGenerator opts req)
             \<lparr>count = 1, resetAt = now + eff_windowMs opts\<rparr> bs
       \<and> map_of (fst (rateLimiter opts bs now req)) (eff_keyGenerator opts req) =
           Some \<lparr>count = 1, resetAt = now + eff_windowMs opts\<rparr>
       \<and> header_of (snd (rateLimiter opts bs now req)) ''X-RateLimit-Limit'' =
           Some (String_of (eff_max opts))
       \<and> header_of (snd (rateLimiter opts bs now req)) ''X-RateLimit-Remaining'' =
           Some (String_of (eff_max opts - 1))
       \<and> header_of (snd (rateLimiter opts bs now req)) ''X-RateLimit-Reset'' =
           Some (String_of (ceil_div_1000 (now + eff_windowMs opts)))
       \<and> ceil_div_1000 (now + eff_windowMs opts) = \<lceil>real_of_int (now + eff_windowMs opts) / 1000\<rceil>
       \<and> action (snd (rateLimiter opts bs now req)) = Next"
proof -
  have "opens_window bs (eff_keyGenerator opts req) now"
    using assms by (auto simp: opens_window_def)
  then have "rateLimiter opts bs now req =
           (AList.update (eff_keyGenerator opts req)
              \<lparr>count = 1, resetAt = now + eff_windowMs opts\<rparr> bs,
            \<lparr>setHeader =
               [(''X-RateLimit-Limit'', String_of (eff_max opts)),
                (''X-RateLimit-Remaining'', String_of (eff_max opts - 1)),
                (''X-RateLimit-Reset'', String_of (ceil_div_1000 (now + eff_windowMs opts)))],
             action = Next\<rparr>)"
    by (rule rateLimiter_opens)
  moreover have "ceil_div_1000 (now + eff_windowMs opts) =
      \<lceil>real_of_int (now + eff_windowMs opts) / 1000\<rceil>"
    by (simp only: ceil_div_1000_real)
  ultimately show ?thesis
    by (simp add: header_of_def update_conv')
qed

theorem missing_or_expired_bucket_opens_window_witness:
  "(map_of [(''1.2.3.4'', \<lparr>count = 7, resetAt = 1000\<rparr>)]
        (eff_keyGenerator scenario_options (request_from ''1.2.3.4'')) = None
      \<or> (\<exists>b. map_of [(''1.2.3.4'', \<lparr>count = 7, resetAt = 1000\<rparr>)]
               (eff_keyGenerator scenario_options (request_from ''1.2.3.4'')) = Some b
             \<and> resetAt b \<le> 1000))
   \<and> fst (rateLimiter scenario_options [(''1.2.3.4'', \<lparr>count = 7, resetAt = 1000\<rparr>)] 1000
          (request_from ''1.2.3.4'')) = [(''1.2.3.4'', \<lparr>count = 1, resetAt = 2000\<rparr>)]
   \<and> header_of (snd (rateLimiter scenario_options [(''1.2.3.4'', \<lparr>count = 7, resetAt = 1000\<rparr>)]
          1000 (request_from ''1.2.3.4''))) ''X-RateLimit-Remaining'' = Some ''1''
   \<and> header_of (snd (rateLimiter scenario_options [(''1.2.3.4'', \<lparr>count = 7, resetAt = 1000\<rparr>)]
          1000 (request_from ''1.2.3.4''))) ''X-RateLimit-Reset'' = Some ''2''
   \<and> action (snd (rateLimiter scenario_options [(''1.2.3.4'', \<lparr>count = 7, resetAt = 1000\<rparr>)]
          1000 (request_from ''1.2.3.4''))) = Next"
proof -
  let ?bs = "[(''1.2.3.4'', \<lparr>count = 7, resetAt = 1000\<rparr>)]"
  have h: "map_of ?bs (eff_keyGenerator scenario_options (request_from ''1.2.3.4'')) = None
      \<or> (\<exists>b. map_of ?bs (eff_keyGenerator scenario_options (request_from ''1.2.3.4'')) = Some b
             \<and> resetAt b \<le> 1000)"
    by (simp add: key_of_scenario_request)
  note T = missing_or_expired_bucket_opens_window[OF h]
  have s1: "String_of (2 - 1) = ''1''"
    by (simp add: String_of_def digits.simps digit_def)
  have s2: "String_of (ceil_div_1000 (1000 + 1000)) = ''2''"
    by (simp add: ceil_div_1000_def String_of_def digits.simps digit_def)
  have a: "fst (rateLimiter scenario_options ?bs 1000 (request_from ''1.2.3.4'')) =
      [(''1.2.3.4'', \<lparr>count = 1, resetAt = 2000\<rparr>)]"
    unfolding T[THEN conjunct1] key_of_scenario_request eff_windowMs_scenario by simp
  have b: "header_of (snd (rateLimiter scenario_options ?bs 1000 (request_from ''1.2.3.4'')))
      ''X-RateLimit-Remaining'' = Some ''1''"
    unfolding T[THEN conjunct2, THEN conjunct2, THEN conjunct2, THEN conjunct1]
      eff_max_scenario s1 by (rule refl)
  have c: "header_of (snd (rateLimiter scenario_options ?bs 1000 (request_from ''1.2.3.4'')))
      ''X-RateLimit-Reset'' = Some ''2''"
    unfolding T[THEN conjunct2, THEN conjunct2, THEN conjunct2, THEN conjunct2, THEN conjunct1]
      eff_windowMs_scenario s2 by (rule refl)
  have d: "action (snd (rateLimiter scenario_options ?bs 1000 (request_from ''1.2.3.4''))) = Next"
    by (rule T[THEN conjunct2, THEN conjunct2, THEN conjunct2, THEN conjunct2, THEN conjunct2,
          THEN conjunct2])
  from h a b c d show ?thesis by blast
qed

text \<open>
  C5. \<open>getClientIp\<close> prefers the forwarded header: when \<^verbatim>\<open>x-forwarded-for\<close> is a non-empty
  string, the result is the part before its first comma, trimmed (white space on both sides
  removed, nothing else); otherwise it is \<^verbatim>\<open>req.ip\<close> when that is a non-empty string,
  otherwise the socket's remote address when that is a non-empty string, otherwise
  \<^verbatim>\<open>"unknown"\<close>. A header that arrives as an array counts as its first element (as absent
  when the array is empty). For \<^verbatim>\<open>"9.9.9.9, 10.0.0.1"\<close> the key is \<^verbatim>\<open>"9.9.9.9"\<close>; with no
  header and no address it is \<^verbatim>\<open>"unknown"\<close>.
\<close>

theorem getClientIp_preference_order:
  "(x_forwarded_for req = Some (Single s) \<and> s \<noteq> [] \<longrightarrow>
      getClientIp req = trim (takeWhile (\<lambda>c. c \<noteq> CHR '','') s)
      \<and> (\<exists>l r rest. s = (l @ getClientIp req @ r) @ rest
            \<and> list_all is_space l \<and> list_all is_space r
            \<and> CHR '','' \<notin> set (l @ getClientIp req @ r)
            \<and> (rest = [] \<or> hd rest = CHR '',''))
      \<and> (getClientIp req = []
           \<or> (\<not> is_space (hd (getClientIp req)) \<and> \<not> is_space (last (getClientIp req)))))
   \<and> ((x_forwarded_for req = None \<or> x_forwarded_for req = Some (Single []))
        \<and> ip req = Some a \<and> a \<noteq> [] \<longrightarrow> getClientIp req = a)
   \<and> ((x_forwarded_for req = None \<or> x_forwarded_for req = Some (Single []))
        \<and> (ip req = None \<or> ip req = Some [])
        \<and> remoteAddress req = Some a \<and> a \<noteq> [] \<longrightarrow> getClientIp req = a)
   \<and> ((x_forwarded_for req = None \<or> x_forwarded_for req = Some (Single []))
        \<and> (ip req = None \<or> ip req = Some [])
        \<and> (remoteAddress req = None \<or> remoteAddress req = Some [])
        \<longrightarrow> getClientIp req = ''unknown'')
   \<and> (x_forwarded_for req = Some (Multi xs) \<longrightarrow>
        getClientIp req =
          getClientIp (req\<lparr>x_forwarded_for := (case xs of [] \<Rightarrow> None | x # _ \<Rightarrow> Some (Single x))\<rparr>))
   \<and> getClientIp \<lparr>x_forwarded_for = Some (Single ''9.9.9.9, 10.0.0.1''), ip = i, remoteAddress = ra\<rparr>
        = ''9.9.9.9''
   \<and> getClientIp \<lparr>x_forwarded_for = None, ip = None, remoteAddress = None\<rparr> = ''unknown''"
proof -
  have fwd: "getClientIp req = trim (takeWhile (\<lambda>c. c \<noteq> CHR '','') s)
      \<and> (\<exists>l r rest. s = (l @ getClientIp req @ r) @ rest
            \<and> list_all is_space l \<and> list_all is_space r
            \<and> CHR '','' \<notin> set (l @ getClientIp req @ r)
            \<and> (rest = [] \<or> hd rest = CHR '',''))
      \<and> (getClientIp req = []
           \<or> (\<not> is_space (hd (getClientIp req)) \<and> \<not> is_space (last (getClientIp req))))"
    if h: "x_forwarded_for req = Some (Single s)" "s \<noteq> []"
  proof -
    let ?seg = "takeWhile (\<lambda>c. c \<noteq> CHR '','') s"
    have g: "getClientIp req = trim ?seg"
      using h by (rule getClientIp_forwarded)
    obtain rest where rest: "s = ?seg @ rest" "rest = [] \<or> hd rest = CHR '',''"
        "CHR '','' \<notin> set ?seg"
      using first_segment[of s "CHR '',''"] by blast
    obtain l r where lr: "?seg = l @ trim ?seg @ r" "list_all is_space l" "list_all is_space r"
      using trim_decomposition[of ?seg] by blast
    have "s = (l @ getClientIp req @ r) @ rest"
      using rest(1) lr(1) g by simp
    moreover have "CHR '','' \<notin> set (l @ getClientIp req @ r)"
      using rest(3) lr(1) g by simp
    moreover have "getClientIp req = []
        \<or> (\<not> is_space (hd (getClientIp req)) \<and> \<not> is_space (last (getClientIp req)))"
      using trim_ends[of ?seg] g by auto
    ultimately show ?thesis
      using g lr(2,3) rest(2) by blast
  qed
  have nf: "getClientIp req = or_else (ip req) (or_else (remoteAddress req) ''unknown'')"
    if "x_forwarded_for req = None \<or> x_forwarded_for req = Some (Single [])"
    using that by (rule getClientIp_not_forwarded)
  have b: "getClientIp req = a"
    if "x_forwarded_for req = None \<or> x_forwarded_for req = Some (Single [])"
      "ip req = Some a" "a \<noteq> []"
    using nf[OF that(1)] that(2,3) by (simp add: or_else_def)
  have c: "getClientIp req = a"
    if "x_forwarded_for req = None \<or> x_forwarded_for req = Some (Single [])"
      "ip req = None \<or> ip req = Some []" "remoteAddress req = Some a" "a \<noteq> []"
    using nf[OF that(1)] that(2,3,4) by (auto simp: or_else_def)
  have d: "getClientIp req = ''unknown''"
    if "x_forwarded_for req = None \<or> x_forwarded_for req = Some (Single [])"
      "ip req = None \<or> ip req = Some []" "remoteAddress req = None \<or> remoteAddress req = Some []"
    using nf[OF that(1)] that(2,3) by (auto simp: or_else_def)
  have e: "getClientIp req =
      getClientIp (req\<lparr>x_forwarded_for := (case xs of [] \<Rightarrow> None | x # _ \<Rightarrow> Some (Single x))\<rparr>)"
    if "x_forwarded_for req = Some (Multi xs)"
    using that by (cases xs) (simp_all add: getClientIp_def)
  have f: "getClientIp \<lparr>x_forwarded_for = Some (Single ''9.9.9.9, 10.0.0.1''), ip = i,
      remoteAddress = ra\<rparr> = ''9.9.9.9''"
    by (simp add: getClientIp_def trim_def is_space_def)
  have g: "getClientIp \<lparr>x_forwarded_for = None, ip = None, remoteAddress = None\<rparr> = ''unknown''"
    by (simp add: getClientIp_def or_else_def)
  from fwd b c d e f g show ?thesis by blast
qed


theorem getClientIp_preference_order_witness:
  "getClientIp \<lparr>x_forwarded_for = Some (Single '' 9.9.9.9 , 10.0.0.1''), ip = Some ''10.0.0.7'',
       remoteAddress = Some ''10.0.0.8''\<rparr> = ''9.9.9.9''
   \<and> getClientIp \<lparr>x_forwarded_for = Some (Single []), ip = Some ''10.0.0.7'',
       remoteAddress = Some ''10.0.0.8''\<rparr> = ''10.0.0.7''
   \<and> getClientIp \<lparr>x_forwarded_for = None, ip = Some [],
       remoteAddress = Some ''10.0.0.8''\<rparr> = ''10.0.0.8''
   \<and> getClientIp \<lparr>x_forwarded_for = None, ip = None, remoteAddress = Some []\<rparr> = ''unknown''
   \<and> getClientIp \<lparr>x_forwarded_for = Some (Multi [''9.9.9.9, 10.0.0.1'', ''8.8.8.8'']), ip = None,
       remoteAddress = None\<rparr> = ''9.9.9.9''"
proof -
  let ?r1 = "\<lparr>x_forwarded_for = Some (Single '' 9.9.9.9 , 10.0.0.1''), ip = Some ''10.0.0.7'',
       remoteAddress = Some ''10.0.0.8''\<rparr>"
  let ?r2 = "\<lparr>x_forwarded_for = Some (Single []), ip = Some ''10.0.0.7'',
       remoteAddress = Some ''10.0.0.8''\<rparr>"
  let ?r3 = "\<lparr>x_forwarded_for = None, ip = Some [], remoteAddress = Some ''10.0.0.8''\<rparr>"
  let ?r4 = "\<lparr>x_forwarded_for = None, ip = None, remoteAddress = Some []\<rparr>"
  let ?r5 = "\<lparr>x_forwarded_for = Some (Multi [''9.9.9.9, 10.0.0.1'', ''8.8.8.8'']), ip = None,
       remoteAddress = None\<rparr>"
  have "getClientIp ?r1 = trim (takeWhile (\<lambda>c. c \<noteq> CHR '','') '' 9.9.9.9 , 10.0.0.1'')"
    using getClientIp_preference_order[of ?r1 "'' 9.9.9.9 , 10.0.0.1''", THEN conjunct1]
    by simp
  then have a: "getClientIp ?r1 = ''9.9.9.9''"
    by (simp add: trim_def is_space_def)
  have b: "getClientIp ?r2 = ''10.0.0.7''"
    using getClientIp_preference_order[of ?r2 _ "''10.0.0.7''",
        THEN conjunct2, THEN conjunct1]
    by simp
  have c: "getClientIp ?r3 = ''10.0.0.8''"
    using getClientIp_preference_order[of ?r3 _ "''10.0.0.8''",
        THEN conjunct2, THEN conjunct2, THEN conjunct1]
    by simp
  have d: "getClientIp ?r4 = ''unknown''"
    using getClientIp_preference_order[of ?r4,
        THEN conjunct2, THEN conjunct2, THEN conjunct2, THEN conjunct1]
    by simp
  have "getClientIp ?r5 =
      getClientIp \<lparr>x_forwarded_for = Some (Single ''9.9.9.9, 10.0.0.1''), ip = None,
        remoteAddress = None\<rparr>"
    using getClientIp_preference_order[of ?r5 _ _ "[''9.9.9.9, 10.0.0.1'', ''8.8.8.8'']",
        THEN conjunct2, THEN conjunct2, THEN conjunct2, THEN conjunct2, THEN conjunct1]
    by simp
  also have "\<dots> = ''9.9.9.9''"
    by (rule getClientIp_preference_order[THEN conjunct2, THEN conjunct2, THEN conjunct2,
          THEN conjunct2, THEN conjunct2, THEN conjunct1])
  finally have e: "getClientIp ?r5 = ''9.9.9.9''" .
  from a b c d e show ?thesis by blast
qed

text \<open>
  C6. In the setting of C1, the \<open>j\<close>-th response to \<open>k\<close> (counting from 0) carries
  \<^verbatim>\<open>X-RateLimit-Remaining\<close> \<open>= N - 1 - j\<close> while \<open>j < N\<close> (so \<open>N - 1\<close> on the request that opens
  the window, one less on each accepted request, \<open>0\<close> on the last accepted one) and \<open>0\<close> on
  every rejected one; the value is the numeral of a number that is never negative. After
  any single request the header is \<open>max 0 (N - count)\<close> for the count then stored for
  the key.
\<close>

theorem remaining_counts_down_to_zero:
  assumes "distinct (map fst bs)"
      and "eff_keyGenerator opts req0 = k"
      and "opens_window bs k t0"
      and "list_all (in_window opts k (t0 + eff_windowMs opts)) es"
      and "j < length (outcomes_for k (run opts bs (Request_at t0 req0 # es)))"
  shows "header_of (outcomes_for k (run opts bs (Request_at t0 req0 # es)) ! j)
           ''X-RateLimit-Remaining'' =
           Some (String_of (if int j < eff_max opts then eff_max opts - 1 - int j else 0))
       \<and> (\<exists>n\<ge>0. header_of (outcomes_for k (run opts bs (Request_at t0 req0 # es)) ! j)
                   ''X-RateLimit-Remaining'' = Some (String_of n))
       \<and> (\<forall>bs' now req. \<exists>b.
             map_of (fst (rateLimiter opts bs' now req)) (eff_keyGenerator opts req) = Some b
             \<and> header_of (snd (rateLimiter opts bs' now req)) ''X-RateLimit-Remaining'' =
                 Some (String_of (max 0 (eff_max opts - count b))))"
proof -
  let ?b = "\<lparr>count = 1, resetAt = t0 + eff_windowMs opts\<rparr>"
  let ?bs' = "AList.update k ?b bs"
  let ?outs = "outcomes_for k (run opts bs (Request_at t0 req0 # es))"
  have step: "rateLimiter opts bs t0 req0 =
      (?bs', \<lparr>setHeader =
               [(''X-RateLimit-Limit'', String_of (eff_max opts)),
                (''X-RateLimit-Remaining'', String_of (eff_max opts - 1)),
                (''X-RateLimit-Reset'', String_of (ceil_div_1000 (t0 + eff_windowMs opts)))],
             action = Next\<rparr>)"
    using rateLimiter_opens[of bs opts req0 t0] assms(2,3) by simp
  have outs: "?outs = snd (rateLimiter opts bs t0 req0) # outcomes_for k (run opts ?bs' es)"
    using assms(2) by (simp add: outcomes_for_Cons step)
  have hdr: "header_of (?outs ! j) ''X-RateLimit-Remaining'' =
      Some (String_of (if int j < eff_max opts then eff_max opts - 1 - int j else 0))"
  proof (cases j)
    case 0
    then show ?thesis
      unfolding outs step using eff_max_pos[of opts] by (simp add: header_of_def)
  next
    case (Suc j')
    have len: "j' < length (outcomes_for k (run opts ?bs' es))"
      using assms(5) unfolding outs Suc by simp
    have d: "distinct (map fst ?bs')"
      using assms(1) by (rule distinct_update)
    have m: "map_of ?bs' k = Some ?b"
      by (simp add: update_conv')
    have w: "\<forall>e \<in> set es. in_window opts k (resetAt ?b) e"
      using assms(4) by (simp add: list_all_iff)
    have "max 0 (eff_max opts - (1 + int j') - 1) =
        (if int (Suc j') < eff_max opts then eff_max opts - 1 - int (Suc j') else 0)"
      by simp
    with run_in_window[OF d m w len] show ?thesis
      unfolding outs Suc by simp
  qed
  have "0 \<le> (if int j < eff_max opts then eff_max opts - 1 - int j else 0)"
    by simp
  with hdr have "\<exists>n\<ge>0. header_of (?outs ! j) ''X-RateLimit-Remaining'' = Some (String_of n)"
    by blast
  with hdr show ?thesis
    using remaining_tracks_count[of opts] by blast
qed

theorem remaining_counts_down_to_zero_witness:
  "distinct (map fst ([] :: buckets))
   \<and> eff_keyGenerator scenario_options (request_from ''1.2.3.4'') = ''1.2.3.4''
   \<and> opens_window [] ''1.2.3.4'' 0
   \<and> list_all (in_window scenario_options ''1.2.3.4'' (0 + eff_windowMs scenario_options))
         scenario_events
   \<and> 1 < length (outcomes_for ''1.2.3.4''
             (run scenario_options [] (Request_at 0 (request_from ''1.2.3.4'') # scenario_events)))
   \<and> eff_max scenario_options = 2
   \<and> header_of (outcomes_for ''1.2.3.4''
         (run scenario_options [] (Request_at 0 (request_from ''1.2.3.4'') # scenario_events)) ! 1)
        ''X-RateLimit-Remaining'' = Some ''0''"
proof -
  have k: "eff_keyGenerator scenario_options (request_from ''1.2.3.4'') = ''1.2.3.4''"
    by (simp add: eff_keyGenerator_def scenario_options_def request_from_def getClientIp_def
        trim_def is_space_def)
  have k': "eff_keyGenerator scenario_options (request_from ''5.6.7.8'') = ''5.6.7.8''"
    by (simp add: eff_keyGenerator_def scenario_options_def request_from_def getClientIp_def
        trim_def is_space_def)
  have o: "opens_window [] ''1.2.3.4'' 0"
    by (simp add: opens_window_def)
  have w: "list_all (in_window scenario_options ''1.2.3.4'' (0 + eff_windowMs scenario_options))
         scenario_events"
    by (simp add: scenario_events_def eff_windowMs_def scenario_options_def)
  have l: "length (outcomes_for ''1.2.3.4''
             (run scenario_options [] (Request_at 0 (request_from ''1.2.3.4'') # scenario_events))) = 3"
    by (simp add: scenario_events_def outcomes_for_def k k')
  have n: "eff_max scenario_options = 2"
    by (simp add: eff_max_def scenario_options_def)
  have j: "1 < length (outcomes_for ''1.2.3.4''
             (run scenario_options [] (Request_at 0 (request_from ''1.2.3.4'') # scenario_events)))"
    unfolding l by simp
  have d: "distinct (map fst ([] :: buckets))" by simp
  from remaining_counts_down_to_zero[OF d k o w j] show ?thesis
    using k o w j n by (simp add: String_of_0)
qed

text \<open>
  C7. One tick of the sweep, on a registry with distinct keys, keeps exactly the entries
  whose \<open>resetAt\<close> is still in the future (\<open>now < resetAt\<close>), in their order, and deletes
  exactly those with \<open>resetAt \<le> now\<close>; the timer's interval is \<open>min windowMs 60000\<close> for the
  effective \<open>windowMs\<close>.
\<close>

theorem sweep_deletes_exactly_expired:
  assumes "distinct (map fst bs)"
  shows "sweep bs now = filter (\<lambda>entry. now < resetAt (snd entry)) bs
       \<and> map_of (sweep bs now) k =
           (case map_of bs k of
              None \<Rightarrow> None
            | Some b \<Rightarrow> if resetAt b \<le> now then None else Some b)
       \<and> sweep_interval opts = min (max 1000 (windowMs opts)) 60000"
proof -
  have "(\<lambda>entry. \<not> resetAt (snd entry) \<le> now) = (\<lambda>entry :: string \<times> Bucket. now < resetAt (snd entry))"
    by (simp add: fun_eq_iff not_le)
  then have "sweep bs now = filter (\<lambda>entry. now < resetAt (snd entry)) bs"
    using sweep_filter[OF assms, of now] by simp
  then show ?thesis
    using map_of_sweep[OF assms, of now k]
    by (simp add: sweep_interval_def eff_windowMs_def)
qed

theorem sweep_deletes_exactly_expired_witness:
  "distinct (map fst [(''a'', \<lparr>count = 1, resetAt = 5\<rparr>), (''b'', \<lparr>count = 3, resetAt = 10\<rparr>),
       (''c'', \<lparr>count = 2, resetAt = 11\<rparr>)])
   \<and> sweep [(''a'', \<lparr>count = 1, resetAt = 5\<rparr>), (''b'', \<lparr>count = 3, resetAt = 10\<rparr>),
       (''c'', \<lparr>count = 2, resetAt = 11\<rparr>)] 10 = [(''c'', \<lparr>count = 2, resetAt = 11\<rparr>)]"
proof -
  let ?bs = "[(''a'', \<lparr>count = 1, resetAt = 5\<rparr>), (''b'', \<lparr>count = 3, resetAt = 10\<rparr>),
       (''c'', \<lparr>count = 2, resetAt = 11\<rparr>)]"
  have d: "distinct (map fst ?bs)" by simp
  have "sweep ?bs 10 = [(''c'', \<lparr>count = 2, resetAt = 11\<rparr>)]"
    unfolding sweep_deletes_exactly_expired[OF d, THEN conjunct1] by simp
  with d show ?thesis by blast
qed

text \<open>
  C8. A request whose key is \<open>k\<close> leaves every other key \<open>k'\<close> as it was: the same lookup
  result (present or absent, the same count and \<open>resetAt\<close>) and the same entry in the list.
  Nor does the bucket of \<open>k'\<close> influence the request: storing any bucket for \<open>k'\<close>, or
  deleting it, before the request does not change what the middleware answers.
\<close>

theorem other_keys_untouched:
  assumes "k' \<noteq> eff_keyGenerator opts req"
  shows "map_of (fst (rateLimiter opts bs now req)) k' = map_of bs k'
       \<and> filter (\<lambda>entry. fst entry = k') (fst (rateLimiter opts bs now req)) =
           filter (\<lambda>entry. fst entry = k') bs
       \<and> snd (rateLimiter opts (AList.update k' b' bs) now req) = snd (rateLimiter opts bs now req)
       \<and> snd (rateLimiter opts (AList.delete k' bs) now req) = snd (rateLimiter opts bs now req)"
proof -
  have frame: "map_of (fst (rateLimiter opts bs now req)) k' = map_of bs k'
       \<and> filter (\<lambda>entry. fst entry = k') (fst (rateLimiter opts bs now req)) =
           filter (\<lambda>entry. fst entry = k') bs"
    using assms
    by (cases rule: rateLimiter_cases[of bs opts req now])
       (simp_all add: rateLimiter_opens rateLimiter_rejects rateLimiter_counts update_conv'
          filter_key_update_other)
  have "map_of (AList.update k' b' bs) (eff_keyGenerator opts req) =
      map_of bs (eff_keyGenerator opts req)"
    using assms by (simp add: update_conv')
  then have upd: "snd (rateLimiter opts (AList.update k' b' bs) now req) =
      snd (rateLimiter opts bs now req)"
    by (rule rateLimiter_own_bucket_only[THEN conjunct1])
  have "map_of (AList.delete k' bs) (eff_keyGenerator opts req) =
      map_of bs (eff_keyGenerator opts req)"
    using assms by (simp add: delete_conv')
  then have del: "snd (rateLimiter opts (AList.delete k' bs) now req) =
      snd (rateLimiter opts bs now req)"
    by (rule rateLimiter_own_bucket_only[THEN conjunct1])
  from frame upd del show ?thesis by simp
qed

theorem other_keys_untouched_witness:
  "''5.6.7.8'' \<noteq> eff_keyGenerator scenario_options (request_from ''1.2.3.4'')
   \<and> map_of (fst (rateLimiter scenario_options
         [(''5.6.7.8'', \<lparr>count = 2, resetAt = 10\<rparr>), (''1.2.3.4'', \<lparr>count = 1, resetAt = 1000\<rparr>)]
         20 (request_from ''1.2.3.4''))) ''5.6.7.8'' = Some \<lparr>count = 2, resetAt = 10\<rparr>
   \<and> map_of (fst (rateLimiter scenario_options
         [(''5.6.7.8'', \<lparr>count = 2, resetAt = 10\<rparr>), (''1.2.3.4'', \<lparr>count = 1, resetAt = 1000\<rparr>)]
         20 (request_from ''1.2.3.4''))) ''1.2.3.4'' = Some \<lparr>count = 2, resetAt = 1000\<rparr>"
proof -
  let ?bs = "[(''5.6.7.8'', \<lparr>count = 2, resetAt = 10\<rparr>),
              (''1.2.3.4'', \<lparr>count = 1, resetAt = 1000\<rparr>)]"
  have h: "''5.6.7.8'' \<noteq> eff_keyGenerator scenario_options (request_from ''1.2.3.4'')"
    by (simp add: key_of_scenario_request)
  have a: "map_of (fst (rateLimiter scenario_options ?bs 20 (request_from ''1.2.3.4'')))
      ''5.6.7.8'' = Some \<lparr>count = 2, resetAt = 10\<rparr>"
    unfolding other_keys_untouched[OF h, THEN conjunct1] by simp
  have "map_of ?bs (eff_keyGenerator scenario_options (request_from ''1.2.3.4'')) =
      Some \<lparr>count = 1, resetAt = 1000\<rparr>"
    by (simp add: key_of_scenario_request)
  from rateLimiter_counts[OF this, of 20]
  have b: "map_of (fst (rateLimiter scenario_options ?bs 20 (request_from ''1.2.3.4'')))
      ''1.2.3.4'' = Some \<lparr>count = 2, resetAt = 1000\<rparr>"
    by (simp add: eff_max_scenario key_of_scenario_request)
  from h a b show ?thesis by blast
qed

text \<open>
  C9. A request that is answered with 429 leaves the registry as it was: the same entries
  with the same counts and \<open>resetAt\<close>, in the same order.
\<close>

theorem rejection_leaves_registry_unchanged:
  assumes "action (snd (rateLimiter opts bs now req)) = StatusJson 429 body"
  shows "fst (rateLimiter opts bs now req) = bs"
proof -
  from assms obtain b where "map_of bs (eff_keyGenerator opts req) = Some b"
      "now < resetAt b" "eff_max opts \<le> count b"
    using only_full_active_bucket_rejects by blast
  then show ?thesis
    by (simp add: rateLimiter_rejects)
qed

theorem rejection_leaves_registry_unchanged_witness:
  "action (snd (rateLimiter scenario_options
       [(''5.6.7.8'', \<lparr>count = 1, resetAt = 10\<rparr>), (''1.2.3.4'', \<lparr>count = 2, resetAt = 1000\<rparr>)] 20
       (request_from ''1.2.3.4''))) =
     StatusJson 429 [(''error'', ''Too many requests. Please try again later.'')]
   \<and> fst (rateLimiter scenario_options
       [(''5.6.7.8'', \<lparr>count = 1, resetAt = 10\<rparr>), (''1.2.3.4'', \<lparr>count = 2, resetAt = 1000\<rparr>)] 20
       (request_from ''1.2.3.4'')) =
     [(''5.6.7.8'', \<lparr>count = 1, resetAt = 10\<rparr>), (''1.2.3.4'', \<lparr>count = 2, resetAt = 1000\<rparr>)]"
proof -
  let ?bs = "[(''5.6.7.8'', \<lparr>count = 1, resetAt = 10\<rparr>),
              (''1.2.3.4'', \<lparr>count = 2, resetAt = 1000\<rparr>)]"
  have "map_of ?bs (eff_keyGenerator scenario_options (request_from ''1.2.3.4'')) =
      Some \<lparr>count = 2, resetAt = 1000\<rparr>"
    by (simp add: key_of_scenario_request)
  from rateLimiter_rejects[OF this, of 20]
  have a: "action (snd (rateLimiter scenario_options ?bs 20 (request_from ''1.2.3.4''))) =
      StatusJson 429 [(''error'', ''Too many requests. Please try again later.'')]"
    by (simp add: eff_max_scenario error_message_scenario)
  from a rejection_leaves_registry_unchanged[OF a] show ?thesis by blast
qed

text \<open>
  C10. When \<^verbatim>\<open>x-forwarded-for\<close> is a non-empty string whose part before the first comma is
  white space only (or nothing), \<open>getClientIp\<close> returns the empty string, whatever
  \<^verbatim>\<open>req.ip\<close> and the remote address are; with the default key generator the request is
  counted in the bucket of the empty key.
\<close>

theorem blank_first_segment_gives_empty_key:
  assumes "x_forwarded_for req = Some (Single s)" and "s \<noteq> []"
      and "list_all is_space (takeWhile (\<lambda>c. c \<noteq> CHR '','') s)"
  shows "getClientIp req = []
       \<and> trim (hd (split CHR '','' s)) = []
       \<and> (keyGenerator opts = None \<longrightarrow>
            eff_keyGenerator opts req = []
            \<and> (\<exists>b. map_of (fst (rateLimiter opts bs now req)) [] = Some b))"
proof -
  have t: "trim (hd (split CHR '','' s)) = []"
    using assms(3) by (simp add: hd_split trim_Nil_iff)
  have g: "getClientIp req = []"
    using assms(1,2) t by (simp add: getClientIp_def)
  have "eff_keyGenerator opts req = []
      \<and> (\<exists>b. map_of (fst (rateLimiter opts bs now req)) [] = Some b)"
    if "keyGenerator opts = None"
  proof -
    have k: "eff_keyGenerator opts req = []"
      using that g by (simp add: eff_keyGenerator_def)
    with remaining_tracks_count[of opts bs now req] show ?thesis by auto
  qed
  with t g show ?thesis by blast
qed

theorem blank_first_segment_gives_empty_key_witness:
  "x_forwarded_for \<lparr>x_forwarded_for = Some (Single '' ''), ip = Some ''10.0.0.7'',
       remoteAddress = Some ''10.0.0.8''\<rparr> = Some (Single '' '')
   \<and> '' '' \<noteq> []
   \<and> list_all is_space (takeWhile (\<lambda>c. c \<noteq> CHR '','') '' '')
   \<and> getClientIp \<lparr>x_forwarded_for = Some (Single '' ''), ip = Some ''10.0.0.7'',
       remoteAddress = Some ''10.0.0.8''\<rparr> = []
   \<and> list_all is_space (takeWhile (\<lambda>c. c \<noteq> CHR '','') '',1.2.3.4'')
   \<and> getClientIp \<lparr>x_forwarded_for = Some (Single '',1.2.3.4''), ip = Some ''10.0.0.9'',
       remoteAddress = None\<rparr> = []
   \<and> map_of
        (fst (rateLimiter scenario_options
           (fst (rateLimiter scenario_options []
              0 \<lparr>x_forwarded_for = Some (Single '' ''), ip = Some ''10.0.0.7'',
                  remoteAddress = Some ''10.0.0.8''\<rparr>))
           5 \<lparr>x_forwarded_for = Some (Single '',1.2.3.4''), ip = Some ''10.0.0.9'',
               remoteAddress = None\<rparr>)) [] =
       Some \<lparr>count = 2, resetAt = 1000\<rparr>"
proof -
  let ?r1 = "\<lparr>x_forwarded_for = Some (Single '' ''), ip = Some ''10.0.0.7'',
       remoteAddress = Some ''10.0.0.8''\<rparr>"
  let ?r2 = "\<lparr>x_forwarded_for = Some (Single '',1.2.3.4''), ip = Some ''10.0.0.9'',
       remoteAddress = None\<rparr>"
  have h1: "x_forwarded_for ?r1 = Some (Single '' '')" by simp
  have h2: "'' '' \<noteq> []" by simp
  have h3: "list_all is_space (takeWhile (\<lambda>c. c \<noteq> CHR '','') '' '')"
    by (simp add: is_space_def)
  have i1: "x_forwarded_for ?r2 = Some (Single '',1.2.3.4'')" by simp
  have i2: "'',1.2.3.4'' \<noteq> []" by simp
  have i3: "list_all is_space (takeWhile (\<lambda>c. c \<noteq> CHR '','') '',1.2.3.4'')"
    by simp
  have n: "keyGenerator scenario_options = None"
    by (simp add: scenario_options_def)
  have k1: "eff_keyGenerator scenario_options ?r1 = []"
    using blank_first_segment_gives_empty_key[OF h1 h2 h3, of scenario_options] n by blast
  have k2: "eff_keyGenerator scenario_options ?r2 = []"
    using blank_first_segment_gives_empty_key[OF i1 i2 i3, of scenario_options] n by blast
  have "opens_window [] (eff_keyGenerator scenario_options ?r1) 0"
    by (simp add: opens_window_def)
  then have s1: "fst (rateLimiter scenario_options [] 0 ?r1) =
      [([], \<lparr>count = 1, resetAt = 1000\<rparr>)]"
    by (simp add: rateLimiter_opens k1 eff_windowMs_scenario)
  have "map_of [([], \<lparr>count = 1, resetAt = 1000\<rparr>)] (eff_keyGenerator scenario_options ?r2) =
      Some \<lparr>count = 1, resetAt = 1000\<rparr>"
    by (simp add: k2)
  from rateLimiter_counts[OF this, of 5]
  have s2: "map_of (fst (rateLimiter scenario_options (fst (rateLimiter scenario_options [] 0 ?r1))
      5 ?r2)) [] = Some \<lparr>count = 2, resetAt = 1000\<rparr>"
    unfolding s1 by (simp add: eff_max_scenario k2)
  from h1 h2 h3 i3 s2
    blank_first_segment_gives_empty_key[OF h1 h2 h3, THEN conjunct1]
    blank_first_segment_gives_empty_key[OF i1 i2 i3, THEN conjunct1]
  show ?thesis by blast
qed

end
